theory Spec2Isabelle
  imports Main "HOL-Library.Sublist" "HOL-Library.List_Lexorder" "HOL-Library.Char_ord"
begin

section \<open>Data model\<close>

text \<open>
  The transcript store is a JSON document. A Python \<^verbatim>\<open>dict\<close> is an association list
  in insertion order (its keys are distinct), \<^verbatim>\<open>None\<close> is \<open>JNull\<close>.
\<close>

datatype json =
    JNull
  | JBool bool
  | JNum int
  | JStr string
  | JArr "json list"
  | JObj "(string \<times> json) list"

text \<open>
  The exceptions of the code. \<open>SummarizerError\<close> stands for whatever the summarization
  pipeline raises.
\<close>

datatype py_error =
    FileNotFoundError
  | JSONDecodeError
  | AttributeError
  | TypeError
  | IndexError
  | KeyError
  | SummarizerError string

text \<open>
  One row of the flat table built by \<^verbatim>\<open>DataLoader.to_dataframe\<close>. The text cells are
  strings or null (\<open>None\<close>), as in the data model of the store; \<open>knowledge_source\<close> is kept
  as the opaque JSON value it is.
\<close>

record row =
  transcript_id :: string
  article_url :: "string option"
  message :: "string option"
  agent :: "string option"
  sentiment :: "string option"
  knowledge_source :: json
  turn_rating :: "string option"

text \<open>The table after \<^verbatim>\<open>DataPreprocessor.apply_text_preprocessing\<close>: one more column.\<close>

record nrow = row +
  processed_message :: string

text \<open>
  A pandas \<^verbatim>\<open>DataFrame\<close> of such rows. The frame that pandas builds from an empty list of
  records has no rows and no columns either; a frame that has lost all its rows still has
  its columns.
\<close>

datatype 'r frame =
    NoColumns
  | Table "'r list"

fun frame_rows :: "'r frame \<Rightarrow> 'r list" where
  "frame_rows NoColumns = []"
| "frame_rows (Table rs) = rs"

text \<open>\<^verbatim>\<open>pd.DataFrame(records)\<close> on a list of dicts that all have the same keys.\<close>

definition pd_DataFrame :: "'r list \<Rightarrow> 'r frame" where
  "pd_DataFrame records = (if records = [] then NoColumns else Table records)"

section \<open>DataLoader\<close>

text \<open>\<^verbatim>\<open>d.get(k)\<close> and \<^verbatim>\<open>d.get(k, default)\<close> on a dict.\<close>

definition dict_get :: "(string \<times> json) list \<Rightarrow> string \<Rightarrow> json \<Rightarrow> json" where
  "dict_get d k dflt = (case map_of d k of None \<Rightarrow> dflt | Some v \<Rightarrow> v)"

text \<open>
  A text cell of the table. The store's data model has strings and null in these fields;
  a value of another JSON type is not a text cell and is read as null here (pandas keeps
  it as an object). So the rows computed below are the rows of the pandas frame for the
  stores that satisfy \<open>typed_store\<close>, defined after \<open>to_dataframe\<close>; whether the loops
  raise, and with which error, does not depend on the value of a cell.
\<close>

fun as_text :: "json \<Rightarrow> string option" where
  "as_text (JStr s) = Some s"
| "as_text _ = None"

text \<open>
  \<^verbatim>\<open>for turn in ...\<close>: what Python iterates over. A list gives its elements, a dict its
  keys, a string its characters; \<^verbatim>\<open>None\<close>, a number or a boolean is not iterable.
\<close>

fun py_iter :: "json \<Rightarrow> py_error + json list" where
  "py_iter (JArr xs) = Inr xs"
| "py_iter (JObj kvs) = Inr (map (\<lambda>kv. JStr (fst kv)) kvs)"
| "py_iter (JStr s) = Inr (map (\<lambda>c. JStr [c]) s)"
| "py_iter _ = Inl TypeError"

text \<open>The body of the inner loop: \<^verbatim>\<open>turn.get\<close> exists only when \<^verbatim>\<open>turn\<close> is a dict.\<close>

fun turn_record :: "string \<Rightarrow> string option \<Rightarrow> json \<Rightarrow> py_error + row" where
  "turn_record tid url (JObj turn) =
     Inr \<lparr> transcript_id = tid,
           article_url = url,
           message = as_text (dict_get turn ''message'' JNull),
           agent = as_text (dict_get turn ''agent'' JNull),
           sentiment = as_text (dict_get turn ''sentiment'' JNull),
           knowledge_source = dict_get turn ''knowledge_source'' JNull,
           turn_rating = as_text (dict_get turn ''turn_rating'' JNull) \<rparr>"
| "turn_record tid url _ = Inl AttributeError"

fun turn_records :: "string \<Rightarrow> string option \<Rightarrow> json list \<Rightarrow> py_error + row list" where
  "turn_records tid url [] = Inr []"
| "turn_records tid url (turn # turns) =
     (case turn_record tid url turn of
        Inl e \<Rightarrow> Inl e
      | Inr r \<Rightarrow> (case turn_records tid url turns of
                   Inl e \<Rightarrow> Inl e
                 | Inr rs \<Rightarrow> Inr (r # rs)))"

text \<open>
  One pass of the outer loop, for one \<^verbatim>\<open>(transcript_id, data)\<close> item: \<^verbatim>\<open>data.get\<close> needs
  a dict, and a record without a \<^verbatim>\<open>content\<close> key iterates over the default \<^verbatim>\<open>[]\<close>.
\<close>

fun transcript_records :: "string \<Rightarrow> json \<Rightarrow> py_error + row list" where
  "transcript_records tid (JObj data) =
     (let url = as_text (dict_get data ''article_url'' JNull) in
      case py_iter (dict_get data ''content'' (JArr [])) of
        Inl e \<Rightarrow> Inl e
      | Inr turns \<Rightarrow> turn_records tid url turns)"
| "transcript_records tid _ = Inl AttributeError"

fun store_records :: "(string \<times> json) list \<Rightarrow> py_error + row list" where
  "store_records [] = Inr []"
| "store_records ((tid, data) # items) =
     (case transcript_records tid data of
        Inl e \<Rightarrow> Inl e
      | Inr rs \<Rightarrow> (case store_records items of
                    Inl e \<Rightarrow> Inl e
                  | Inr rest \<Rightarrow> Inr (rs @ rest)))"

text \<open>\<^verbatim>\<open>DataLoader.to_dataframe\<close>: \<^verbatim>\<open>raw_data.items()\<close> exists only on a dict.\<close>

fun to_dataframe :: "json \<Rightarrow> py_error + row frame" where
  "to_dataframe (JObj items) =
     (case store_records items of Inl e \<Rightarrow> Inl e | Inr records \<Rightarrow> Inr (pd_DataFrame records))"
| "to_dataframe _ = Inl AttributeError"





text \<open>
  \<^verbatim>\<open>DataLoader.load_data\<close>: the file system maps a path to the text of the file, and
  \<open>loads\<close> is the JSON parser of the standard library (\<open>None\<close> when the text is not JSON).
\<close>

definition load_data :: "(string \<Rightarrow> json option) \<Rightarrow> (string \<rightharpoonup> string) \<Rightarrow> string \<Rightarrow> py_error + json" where
  "load_data loads fs filepath =
     (case fs filepath of
        None \<Rightarrow> Inl FileNotFoundError
      | Some txt \<Rightarrow> (case loads txt of None \<Rightarrow> Inl JSONDecodeError | Some j \<Rightarrow> Inr j))"

section \<open>DataCleaner\<close>

text \<open>
  \<^verbatim>\<open>drop_duplicates(subset=..., keep='first')\<close> and \<^verbatim>\<open>Series.unique()\<close> of pandas: a row is
  kept when its key has not been seen before, in the order of the table. Pandas compares
  null cells as equal to each other here, as \<open>None = None\<close> does.
\<close>

fun keep_first :: "('a \<Rightarrow> 'k) \<Rightarrow> 'k list \<Rightarrow> 'a list \<Rightarrow> 'a list" where
  "keep_first key seen [] = []"
| "keep_first key seen (r # rs) =
     (if key r \<in> set seen then keep_first key seen rs
      else r # keep_first key (key r # seen) rs)"

text \<open>The \<^verbatim>\<open>subset\<close> of \<^verbatim>\<open>DataCleaner.remove_duplicates\<close>.\<close>

definition dup_key :: "'a row_scheme \<Rightarrow> string \<times> string option \<times> string option" where
  "dup_key r = (transcript_id r, agent r, message r)"

text \<open>
  \<^verbatim>\<open>DataCleaner.remove_duplicates\<close>, on the frame \<^verbatim>\<open>self.df\<close>. On an empty frame
  \<^verbatim>\<open>drop_duplicates\<close> returns at once, without looking at the columns.
\<close>

fun remove_duplicates :: "'a row_scheme frame \<Rightarrow> 'a row_scheme frame" where
  "remove_duplicates NoColumns = NoColumns"
| "remove_duplicates (Table df) = Table (keep_first dup_key [] df)"

text \<open>
  \<^verbatim>\<open>DataCleaner.handle_missing_values\<close>: \<^verbatim>\<open>dropna(subset=['message', 'agent'])\<close> looks the
  two columns up first, a \<open>KeyError\<close> on the frame without columns.
\<close>

fun handle_missing_values :: "'a row_scheme frame \<Rightarrow> py_error + 'a row_scheme frame" where
  "handle_missing_values NoColumns = Inl KeyError"
| "handle_missing_values (Table df) =
     Inr (Table (filter (\<lambda>r. message r \<noteq> None \<and> agent r \<noteq> None) df))"

definition clean_data :: "'a row_scheme frame \<Rightarrow> py_error + 'a row_scheme frame" where
  "clean_data df = handle_missing_values (remove_duplicates df)"

section \<open>DataPreprocessor\<close>

text \<open>
  The library functions that \<^verbatim>\<open>preprocess_text\<close> calls are not part of the repository:
  \<^verbatim>\<open>str.lower\<close> of Python, and the English stopword list, the word tokenizer and the
  WordNet lemmatizer of NLTK, are parameters. They are taken to return on every string.
\<close>

record library =
  lower :: "string \<Rightarrow> string"
  english_stopwords :: "string list"
  word_tokenize :: "string \<Rightarrow> string list"
  lemmatize :: "string \<Rightarrow> string"

text \<open>
  The calls that load or build a normalization resource, in the order they are executed:
  \<^verbatim>\<open>nltk.download(name)\<close>, \<^verbatim>\<open>stopwords.words('english')\<close> and \<^verbatim>\<open>WordNetLemmatizer()\<close>.
\<close>

datatype event =
    NltkDownload string
  | StopwordsWords
  | NewWordNetLemmatizer

text \<open>The statements at the top of the module, executed once when it is imported.\<close>

definition module_import :: "event list \<Rightarrow> event list" where
  "module_import log =
     log @ [NltkDownload ''stopwords'', NltkDownload ''punkt'', NltkDownload ''wordnet'',
            StopwordsWords, NewWordNetLemmatizer]"

text \<open>
  \<^verbatim>\<open>string.punctuation\<close>, a string of 32 characters: the ASCII characters from 0x21 to
  0x2F, from 0x3A to 0x40, from 0x5B to 0x60 and from 0x7B to 0x7E, in this order.
\<close>

definition punctuation :: string where
  "punctuation =
     [CHR 0x21, CHR 0x22, CHR 0x23, CHR 0x24, CHR 0x25, CHR 0x26, CHR 0x27, CHR 0x28,
      CHR 0x29, CHR 0x2A, CHR 0x2B, CHR 0x2C, CHR 0x2D, CHR 0x2E, CHR 0x2F,
      CHR 0x3A, CHR 0x3B, CHR 0x3C, CHR 0x3D, CHR 0x3E, CHR 0x3F, CHR 0x40,
      CHR 0x5B, CHR 0x5C, CHR 0x5D, CHR 0x5E, CHR 0x5F, CHR 0x60,
      CHR 0x7B, CHR 0x7C, CHR 0x7D, CHR 0x7E]"

text \<open>
  \<^verbatim>\<open>a in b\<close> on two Python strings: \<open>a\<close> occurs in \<open>b\<close> as a contiguous run of
  characters (the empty string occurs in every string).
\<close>

fun str_in :: "string \<Rightarrow> string \<Rightarrow> bool" where
  "str_in a [] = (a = [])"
| "str_in a (c # cs) = (take (length a) (c # cs) = a \<or> str_in a cs)"

text \<open>\<^verbatim>\<open>sep.join(parts)\<close>.\<close>

fun join :: "string \<Rightarrow> string list \<Rightarrow> string" where
  "join sep [] = []"
| "join sep [x] = x"
| "join sep (x # y # ys) = x @ sep @ join sep (y # ys)"

text \<open>The condition of the list comprehension in \<^verbatim>\<open>preprocess_text\<close>.\<close>

definition keep_token :: "string set \<Rightarrow> string \<Rightarrow> bool" where
  "keep_token stop_words token = (token \<notin> stop_words \<and> \<not> str_in token punctuation)"

definition processed_tokens :: "library \<Rightarrow> string \<Rightarrow> string list" where
  "processed_tokens lib text =
     filter (keep_token (set (english_stopwords lib))) (word_tokenize lib (lower lib text))"

text \<open>
  \<^verbatim>\<open>DataPreprocessor.preprocess_text\<close>, with the log of resource events threaded
  through: the lemmatizer and the stopword set are built in the first two statements of
  the body, before the \<^verbatim>\<open>isinstance\<close> test. The argument is any Python value.
\<close>

definition preprocess_text_io :: "library \<Rightarrow> json \<Rightarrow> event list \<Rightarrow> string \<times> event list" where
  "preprocess_text_io lib text log =
     (let log1 = log @ [NewWordNetLemmatizer];
          log2 = log1 @ [StopwordsWords]
      in case text of
           JStr s \<Rightarrow> (join '' '' (map (lemmatize lib) (processed_tokens lib s)), log2)
         | _ \<Rightarrow> ('''', log2))"

definition preprocess_text :: "library \<Rightarrow> json \<Rightarrow> string" where
  "preprocess_text lib text = fst (preprocess_text_io lib text [])"

text \<open>A process: the module is imported, then \<^verbatim>\<open>preprocess_text\<close> is called on each input.\<close>

fun run_calls :: "library \<Rightarrow> json list \<Rightarrow> event list \<Rightarrow> event list" where
  "run_calls lib [] log = log"
| "run_calls lib (text # texts) log = run_calls lib texts (snd (preprocess_text_io lib text log))"

definition process_log :: "library \<Rightarrow> json list \<Rightarrow> event list" where
  "process_log lib texts = run_calls lib texts (module_import [])"

text \<open>A cell of the table as the Python value \<^verbatim>\<open>Series.apply\<close> passes to the function.\<close>

fun cell_value :: "string option \<Rightarrow> json" where
  "cell_value None = JNull"
| "cell_value (Some s) = JStr s"

text \<open>
  \<^verbatim>\<open>apply_text_preprocessing\<close> on the column \<^verbatim>\<open>message\<close>, and \<^verbatim>\<open>transform_data\<close>. The
  column is looked up first, a \<open>KeyError\<close> on the frame without columns.
\<close>

definition processed_rows :: "library \<Rightarrow> row list \<Rightarrow> nrow list" where
  "processed_rows lib df =
     map (\<lambda>r. \<lparr> transcript_id = transcript_id r,
                  article_url = article_url r,
                  message = message r,
                  agent = agent r,
                  sentiment = sentiment r,
                  knowledge_source = knowledge_source r,
                  turn_rating = turn_rating r,
                  processed_message = preprocess_text lib (cell_value (message r)) \<rparr>) df"

fun apply_text_preprocessing :: "library \<Rightarrow> row frame \<Rightarrow> py_error + nrow frame" where
  "apply_text_preprocessing lib NoColumns = Inl KeyError"
| "apply_text_preprocessing lib (Table df) = Inr (Table (processed_rows lib df))"

definition transform_data :: "library \<Rightarrow> row frame \<Rightarrow> py_error + nrow frame" where
  "transform_data lib df = apply_text_preprocessing lib df"
section \<open>TranscriptAnalyzer\<close>

text \<open>\<^verbatim>\<open>TranscriptAnalyzer._load_data\<close>.\<close>

definition analyzer_load_data ::
  "library \<Rightarrow> (string \<Rightarrow> json option) \<Rightarrow> (string \<rightharpoonup> string) \<Rightarrow> string \<Rightarrow> py_error + nrow frame" where
  "analyzer_load_data lib loads fs data_path =
     (if fs data_path = None then Inl FileNotFoundError
      else case load_data loads fs data_path of
             Inl e \<Rightarrow> Inl e
           | Inr raw \<Rightarrow> (case to_dataframe raw of
                          Inl e \<Rightarrow> Inl e
                        | Inr df \<Rightarrow> (case clean_data df of
                                       Inl e \<Rightarrow> Inl e
                                     | Inr cleaned_df \<Rightarrow> transform_data lib cleaned_df)))"

text \<open>
  \<^verbatim>\<open>Series.value_counts().to_dict()\<close>: null cells are not counted (\<^verbatim>\<open>dropna=True\<close>).
\<close>

definition value_counts :: "string option list \<Rightarrow> (string \<rightharpoonup> nat)" where
  "value_counts col = (\<lambda>a. if Some a \<in> set col then Some (count_list col (Some a)) else None)"

text \<open>
  \<^verbatim>\<open>Series.mode()\<close>: the null cells are dropped, and the values that occur most often are
  returned in ascending order. For a column without a non-null cell the result is empty.
\<close>

definition dropna :: "string option list \<Rightarrow> string list" where
  "dropna col = concat (map (\<lambda>c. case c of None \<Rightarrow> [] | Some v \<Rightarrow> [v]) col)"

definition mode :: "string option list \<Rightarrow> string list" where
  "mode col =
     (let vals = dropna col in
      if vals = [] then []
      else let m = Max (set (map (count_list vals) vals))
           in sort (filter (\<lambda>v. count_list vals v = m) (remdups vals)))"

text \<open>\<^verbatim>\<open>.iloc[0]\<close>.\<close>

fun iloc0 :: "'a list \<Rightarrow> py_error + 'a" where
  "iloc0 [] = Inl IndexError"
| "iloc0 (x # xs) = Inr x"

text \<open>
  The selection \<^verbatim>\<open>transcript_df[transcript_df['agent'] == agent]['sentiment']\<close>: the
  comparison of a column with \<^verbatim>\<open>None\<close> is false in every row.
\<close>

definition agent_sentiments :: "'a row_scheme list \<Rightarrow> string option \<Rightarrow> string option list" where
  "agent_sentiments transcript_df a =
     map sentiment (filter (\<lambda>r. a \<noteq> None \<and> agent r = a) transcript_df)"

text \<open>The loop that fills the dict \<^verbatim>\<open>overall_sentiments\<close>, one agent after the other.\<close>

fun sentiments_loop ::
  "'a row_scheme list \<Rightarrow> string option list \<Rightarrow> (string option \<rightharpoonup> string)
     \<Rightarrow> py_error + (string option \<rightharpoonup> string)" where
  "sentiments_loop transcript_df [] acc = Inr acc"
| "sentiments_loop transcript_df (a # agents) acc =
     (let col = agent_sentiments transcript_df a in
      case (if col \<noteq> [] then iloc0 (mode col) else Inr ''N/A'') of
        Inl e \<Rightarrow> Inl e
      | Inr v \<Rightarrow> sentiments_loop transcript_df agents (acc(a \<mapsto> v)))"

definition agent_overall_sentiments ::
  "'a row_scheme list \<Rightarrow> py_error + (string option \<rightharpoonup> string)" where
  "agent_overall_sentiments transcript_df =
     sentiments_loop transcript_df (keep_first (\<lambda>a. a) [] (map agent transcript_df)) Map.empty"

text \<open>\<^verbatim>\<open>" ".join(transcript_df['message'])\<close>: a cell that is not a string is a TypeError.\<close>

fun all_text :: "string option list \<Rightarrow> py_error + string list" where
  "all_text [] = Inr []"
| "all_text (None # cs) = Inl TypeError"
| "all_text (Some s # cs) = (case all_text cs of Inl e \<Rightarrow> Inl e | Inr ss \<Rightarrow> Inr (s # ss))"

definition join_messages :: "string option list \<Rightarrow> py_error + string" where
  "join_messages col = (case all_text col of Inl e \<Rightarrow> Inl e | Inr ss \<Rightarrow> Inr (join '' '' ss))"

text \<open>
  The summarization pipeline is an external model: a parameter that takes the text,
  \<^verbatim>\<open>max_length\<close>, \<^verbatim>\<open>min_length\<close> and \<^verbatim>\<open>do_sample\<close>, and either raises or returns a list of
  results.
\<close>

record summary =
  summary_text :: string

type_synonym summarizer = "string \<Rightarrow> nat \<Rightarrow> nat \<Rightarrow> bool \<Rightarrow> py_error + summary list"

record analysis =
  result_transcript_id :: string
  possible_article_link :: "string option"
  message_counts :: "(string \<times> nat) list"
  overall_sentiments :: "(string \<times> string) list"
  conversation_summary :: string
  accuracy_report :: string

text \<open>The dict that \<^verbatim>\<open>analyze_transcript\<close> returns: the analysis, or one \<^verbatim>\<open>error\<close> entry.\<close>

datatype analyze_result =
    Error string
  | Analysis analysis

definition get_count :: "(string \<rightharpoonup> nat) \<Rightarrow> string \<Rightarrow> nat" where
  "get_count msg_counts a = (case msg_counts a of None \<Rightarrow> 0 | Some n \<Rightarrow> n)"

definition get_sentiment :: "(string option \<rightharpoonup> string) \<Rightarrow> string \<Rightarrow> string" where
  "get_sentiment overall a = (case overall (Some a) of None \<Rightarrow> ''N/A'' | Some v \<Rightarrow> v)"

definition the_accuracy_report :: string where
  "the_accuracy_report =
     ''Accuracy for article link, message counts, and overall sentiments '' @
     ''is 100% as they are derived directly from the provided dataset, '' @
     ''which is treated as the ground truth.''"

text \<open>
  \<^verbatim>\<open>TranscriptAnalyzer.analyze_transcript\<close>, on the frame \<^verbatim>\<open>self.df\<close>: the column
  \<^verbatim>\<open>transcript_id\<close> is looked up first.
\<close>

fun analyze_transcript ::
  "summarizer \<Rightarrow> 'a row_scheme frame \<Rightarrow> string \<Rightarrow> py_error + analyze_result" where
  "analyze_transcript summarizer NoColumns tid = Inl KeyError"
| "analyze_transcript summarizer (Table df) tid =
     (let transcript_df = filter (\<lambda>r. transcript_id r = tid) df in
      case transcript_df of
        [] \<Rightarrow> Inr (Error (''Transcript ID '' @ [CHR 0x27] @ tid @ [CHR 0x27] @ '' not found.''))
      | first # _ \<Rightarrow>
          (let url = article_url first;
               msg_counts = value_counts (map agent transcript_df)
           in case agent_overall_sentiments transcript_df of
                Inl e \<Rightarrow> Inl e
              | Inr overall \<Rightarrow>
                  (case join_messages (map message transcript_df) of
                     Inl e \<Rightarrow> Inl e
                   | Inr full_transcript_text \<Rightarrow>
                       (case summarizer full_transcript_text 150 30 False of
                          Inl e \<Rightarrow> Inl e
                        | Inr summary_list \<Rightarrow>
                            Inr (Analysis
                              \<lparr> result_transcript_id = tid,
                                possible_article_link = url,
                                message_counts =
                                  [(''agent_1'', get_count msg_counts ''agent_1''),
                                   (''agent_2'', get_count msg_counts ''agent_2'')],
                                overall_sentiments =
                                  [(''agent_1'', get_sentiment overall ''agent_1''),
                                   (''agent_2'', get_sentiment overall ''agent_2'')],
                                conversation_summary =
                                  (case summary_list of
                                     [] \<Rightarrow> ''Could not generate summary.''
                                   | s # _ \<Rightarrow> summary_text s),
                                accuracy_report = the_accuracy_report \<rparr>)))))"
section \<open>Concrete inputs\<close>

text \<open>
  Inputs on which the functions above are run below. \<open>small_library\<close> stands for the
  library functions: \<^verbatim>\<open>str.lower\<close> on ASCII text, three stopwords, a tokenizer that splits
  at spaces (what \<^verbatim>\<open>word_tokenize\<close> returns on the texts used here) and a lemmatizer that
  leaves these tokens as they are.
\<close>

definition ascii_lower_char :: "char \<Rightarrow> char" where
  "ascii_lower_char c =
     (if CHR ''A'' \<le> c \<and> c \<le> CHR ''Z'' then char_of (of_char c + (32::nat)) else c)"

definition ascii_lower :: "string \<Rightarrow> string" where
  "ascii_lower s = map ascii_lower_char s"

fun split_spaces :: "string \<Rightarrow> string \<Rightarrow> string list" where
  "split_spaces acc [] = (if acc = [] then [] else [rev acc])"
| "split_spaces acc (c # cs) =
     (if c = CHR '' '' then (if acc = [] then split_spaces [] cs else rev acc # split_spaces [] cs)
      else split_spaces (c # acc) cs)"

definition small_library :: library where
  "small_library =
     \<lparr> lower = ascii_lower,
       english_stopwords = [''a'', ''the'', ''is''],
       word_tokenize = split_spaces [],
       lemmatize = (\<lambda>w. w) \<rparr>"

definition turn_row :: "string \<Rightarrow> string option \<Rightarrow> string option \<Rightarrow> string option \<Rightarrow> row" where
  "turn_row tid a m s =
     \<lparr> transcript_id = tid, article_url = Some ''http://a'', message = m, agent = a,
       sentiment = s, knowledge_source = JObj [], turn_rating = None \<rparr>"

definition raising_summarizer :: summarizer where
  "raising_summarizer text max_length min_length do_sample = Inl (SummarizerError ''timeout'')"

definition silent_summarizer :: summarizer where
  "silent_summarizer text max_length min_length do_sample = Inr []"

definition fixed_summarizer :: summarizer where
  "fixed_summarizer text max_length min_length do_sample = Inr [\<lparr> summary_text = ''A chat.'' \<rparr>]"

text \<open>Rows of one transcript: a turn, the same turn with other annotations, incomplete turns.\<close>

definition greeting :: row where
  "greeting = turn_row ''t1'' (Some ''agent_1'') (Some ''hello'') (Some ''Happy'')"

definition greeting_again :: row where
  "greeting_again =
     (turn_row ''t1'' (Some ''agent_1'') (Some ''hello'') (Some ''Sad''))
       \<lparr> knowledge_source := JStr ''wiki'', turn_rating := Some ''Good'' \<rparr>"

definition no_message :: row where
  "no_message = turn_row ''t1'' (Some ''agent_1'') None (Some ''Happy'')"

definition no_message_again :: row where
  "no_message_again = turn_row ''t1'' (Some ''agent_1'') None None"

definition no_sentiment :: row where
  "no_sentiment = turn_row ''t1'' (Some ''agent_2'') (Some ''hi'') None"






text \<open>A turn of a third participant.\<close>

definition third_agent :: row where
  "third_agent = turn_row ''t1'' (Some ''agent_3'') (Some ''hey'') (Some ''Curious'')"

section \<open>Duplicate removal\<close>

text \<open>Only the set of keys seen so far matters, not the order they were recorded in.\<close>

lemma keep_first_seen_cong:
  "set seen = set seen' \<Longrightarrow> keep_first key seen rs = keep_first key seen' rs"
proof (induction rs arbitrary: seen seen')
  case Nil
  then show ?case by simp
next
  case (Cons r rs)
  have "set (key r # seen) = set (key r # seen')" using Cons.prems by simp
  then have "keep_first key (key r # seen) rs = keep_first key (key r # seen') rs"
    by (rule Cons.IH)
  moreover have "keep_first key seen rs = keep_first key seen' rs"
    using Cons.prems by (rule Cons.IH)
  ultimately show ?case using Cons.prems by simp
qed

lemma keep_first_append:
  "keep_first key seen (xs @ ys) =
   keep_first key seen xs @ keep_first key (map key xs @ seen) ys"
proof (induction xs arbitrary: seen)
  case Nil
  then show ?case by simp
next
  case (Cons x xs)
  show ?case
  proof (cases "key x \<in> set seen")
    case True
    then have "set (map key (x # xs) @ seen) = set (map key xs @ seen)" by auto
    then have "keep_first key (map key (x # xs) @ seen) ys = keep_first key (map key xs @ seen) ys"
      by (rule keep_first_seen_cong)
    with True Cons.IH [of seen] show ?thesis by simp
  next
    case False
    have "set (map key (x # xs) @ seen) = set (map key xs @ key x # seen)" by auto
    then have "keep_first key (map key (x # xs) @ seen) ys =
               keep_first key (map key xs @ key x # seen) ys"
      by (rule keep_first_seen_cong)
    with False Cons.IH [of "key x # seen"] show ?thesis by simp
  qed
qed

lemma keep_first_subseq: "subseq (keep_first key seen rs) rs"
  by (induction rs arbitrary: seen) auto

lemma keep_first_keys: "key ` set (keep_first key seen rs) = key ` set rs - set seen"
  by (induction rs arbitrary: seen) auto

lemma keep_first_distinct: "distinct (map key (keep_first key seen rs))"
proof (induction rs arbitrary: seen)
  case Nil
  then show ?case by simp
next
  case (Cons r rs)
  have "key r \<notin> key ` set (keep_first key (key r # seen) rs)"
    by (simp add: keep_first_keys)
  with Cons.IH show ?case by simp
qed

text \<open>A row that is kept is the first row of the table with its key.\<close>

lemma keep_first_find:
  "r \<in> set (keep_first key seen rs) \<Longrightarrow> find (\<lambda>x. key x = key r) rs = Some r"
proof (induction rs arbitrary: seen)
  case Nil
  then show ?case by simp
next
  case (Cons x xs)
  show ?case
  proof (cases "key x \<in> set seen")
    case True
    with Cons.prems have in_rest: "r \<in> set (keep_first key seen xs)" by simp
    then have "key r \<in> key ` set xs - set seen"
      using keep_first_keys [of key seen xs] by blast
    with True have "key x \<noteq> key r" by auto
    with Cons.IH [OF in_rest] show ?thesis by simp
  next
    case False
    with Cons.prems have "r = x \<or> r \<in> set (keep_first key (key x # seen) xs)" by simp
    then show ?thesis
    proof
      assume "r = x"
      then show ?thesis by simp
    next
      assume in_rest: "r \<in> set (keep_first key (key x # seen) xs)"
      then have "key r \<in> key ` set xs - set (key x # seen)"
        using keep_first_keys [of key "key x # seen" xs] by blast
      then have "key x \<noteq> key r" by auto
      with Cons.IH [OF in_rest] show ?thesis by simp
    qed
  qed
qed

text \<open>A row whose key occurs earlier in the table is ignored, wherever it stands.\<close>

lemma keep_first_later_duplicate:
  assumes "key b \<in> key ` set xs"
  shows "keep_first key seen (xs @ b # ys) = keep_first key seen (xs @ ys)"
proof -
  have "set (key b # map key xs @ seen) = set (map key xs @ seen)"
    using assms by auto
  then have "keep_first key (key b # map key xs @ seen) ys = keep_first key (map key xs @ seen) ys"
    by (rule keep_first_seen_cong)
  with assms show ?thesis
    by (simp add: keep_first_append)
qed

lemma dup_key_eq:
  "dup_key x = dup_key y \<longleftrightarrow>
   transcript_id x = transcript_id y \<and> agent x = agent y \<and> message x = message y"
  by (simp add: dup_key_def)

lemma find_append_prefix:
  "a \<in> set xs \<Longrightarrow> P a \<Longrightarrow> find P (xs @ ys) = find P xs"
  by (induction xs) auto

lemma remove_duplicates_rows:
  "frame_rows (remove_duplicates f) = keep_first dup_key [] (frame_rows f)"
  by (cases f) simp_all

text \<open>
  C6: \<^verbatim>\<open>remove_duplicates\<close> compares rows by \<open>(transcript_id, agent, message)\<close> and by
  nothing else. The rows of its result are a subsequence of the rows of the table
  (first-seen order) in which no two rows have the same key, every key of the table is
  still present, and each surviving row is the first row of the table with its key. Row
  by row: a row appended to a table is dropped exactly when an earlier row has the same
  three fields, whatever its other fields.
\<close>

theorem remove_duplicates_first_seen:
  "subseq (frame_rows (remove_duplicates f)) (frame_rows f) \<and>
   distinct (map (\<lambda>r. (transcript_id r, agent r, message r)) (frame_rows (remove_duplicates f))) \<and>
   (\<forall>r \<in> set (frame_rows f). \<exists>k \<in> set (frame_rows (remove_duplicates f)).
      transcript_id k = transcript_id r \<and> agent k = agent r \<and> message k = message r) \<and>
   (\<forall>r \<in> set (frame_rows (remove_duplicates f)).
      find (\<lambda>x. transcript_id x = transcript_id r \<and> agent x = agent r \<and> message x = message r)
        (frame_rows f) = Some r) \<and>
   remove_duplicates (Table (df @ [b])) =
     (if \<exists>a \<in> set df. transcript_id a = transcript_id b \<and> agent a = agent b \<and> message a = message b
      then remove_duplicates (Table df)
      else Table (frame_rows (remove_duplicates (Table df)) @ [b]))"
proof (intro conjI)
  show "subseq (frame_rows (remove_duplicates f)) (frame_rows f)"
    by (simp add: remove_duplicates_rows keep_first_subseq)
next
  have "distinct (map dup_key (frame_rows (remove_duplicates f)))"
    by (simp add: remove_duplicates_rows keep_first_distinct)
  moreover have "dup_key = (\<lambda>r::'a row_scheme. (transcript_id r, agent r, message r))"
    by (rule ext) (simp add: dup_key_def)
  ultimately show "distinct (map (\<lambda>r. (transcript_id r, agent r, message r))
                     (frame_rows (remove_duplicates f)))"
    by simp
next
  show "\<forall>r \<in> set (frame_rows f). \<exists>k \<in> set (frame_rows (remove_duplicates f)).
          transcript_id k = transcript_id r \<and> agent k = agent r \<and> message k = message r"
  proof
    fix r assume "r \<in> set (frame_rows f)"
    then have "dup_key r \<in> dup_key ` set (frame_rows (remove_duplicates f))"
      by (simp add: remove_duplicates_rows keep_first_keys)
    then obtain k where "k \<in> set (frame_rows (remove_duplicates f))" and "dup_key k = dup_key r"
      by auto
    then show "\<exists>k \<in> set (frame_rows (remove_duplicates f)).
                 transcript_id k = transcript_id r \<and> agent k = agent r \<and> message k = message r"
      by (auto simp: dup_key_eq)
  qed
next
  show "\<forall>r \<in> set (frame_rows (remove_duplicates f)).
          find (\<lambda>x. transcript_id x = transcript_id r \<and> agent x = agent r \<and> message x = message r)
            (frame_rows f) = Some r"
  proof
    fix r assume "r \<in> set (frame_rows (remove_duplicates f))"
    then have "find (\<lambda>x. dup_key x = dup_key r) (frame_rows f) = Some r"
      unfolding remove_duplicates_rows by (rule keep_first_find)
    then show "find (\<lambda>x. transcript_id x = transcript_id r \<and> agent x = agent r \<and> message x = message r)
                 (frame_rows f) = Some r"
      by (simp add: dup_key_eq)
  qed
next
  have "(dup_key b \<in> dup_key ` set df) \<longleftrightarrow> (\<exists>a \<in> set df. dup_key a = dup_key b)"
    by (metis (no_types) image_iff)
  then have key_seen: "(dup_key b \<in> dup_key ` set df) \<longleftrightarrow>
        (\<exists>a \<in> set df. transcript_id a = transcript_id b \<and> agent a = agent b \<and> message a = message b)"
    by (simp only: dup_key_eq)
  show "remove_duplicates (Table (df @ [b])) =
     (if \<exists>a \<in> set df. transcript_id a = transcript_id b \<and> agent a = agent b \<and> message a = message b
      then remove_duplicates (Table df)
      else Table (frame_rows (remove_duplicates (Table df)) @ [b]))"
  proof (cases "dup_key b \<in> dup_key ` set df")
    case True
    then have "remove_duplicates (Table (df @ [b])) = remove_duplicates (Table df)"
      by (simp add: keep_first_append)
    moreover from True key_seen
    have "\<exists>a \<in> set df. transcript_id a = transcript_id b \<and> agent a = agent b \<and> message a = message b"
      by (rule rev_iffD1)
    ultimately show ?thesis by (simp only: if_True)
  next
    case False
    then have "remove_duplicates (Table (df @ [b])) =
               Table (frame_rows (remove_duplicates (Table df)) @ [b])"
      by (simp add: keep_first_append)
    moreover from False key_seen
    have "\<not> (\<exists>a \<in> set df. transcript_id a = transcript_id b \<and> agent a = agent b \<and> message a = message b)"
      by (simp only: not_False_eq_True)
    ultimately show ?thesis by (simp only: if_False)
  qed
qed

theorem remove_duplicates_first_seen_witness:
  "greeting \<in> set (frame_rows (Table [greeting, no_sentiment])) \<and>
   greeting \<in> set (frame_rows (remove_duplicates (Table [greeting, no_sentiment]))) \<and>
   find (\<lambda>x. transcript_id x = transcript_id greeting \<and> agent x = agent greeting
              \<and> message x = message greeting) (frame_rows (Table [greeting, no_sentiment]))
     = Some greeting \<and>
   knowledge_source greeting_again \<noteq> knowledge_source greeting \<and>
   sentiment greeting_again \<noteq> sentiment greeting \<and>
   remove_duplicates (Table ([greeting, no_sentiment] @ [greeting_again]))
     = Table [greeting, no_sentiment]"
  using remove_duplicates_first_seen
    [of "Table [greeting, no_sentiment]" "[greeting, no_sentiment]" greeting_again]
  by (simp add: dup_key_def greeting_def greeting_again_def no_sentiment_def turn_row_def)

section \<open>Cleaning\<close>

text \<open>
  The frame without columns, which pandas builds when the store has no turn at all, is
  not cleaned: \<^verbatim>\<open>dropna\<close> does not find the columns it is asked to look at.
\<close>

lemma clean_data_no_columns: "clean_data NoColumns = Inl KeyError"
  by (simp add: clean_data_def)

text \<open>
  C7: \<^verbatim>\<open>clean_data\<close> removes duplicates first and rows with a null \<open>message\<close> or \<open>agent\<close>
  second. In its result no two rows have the same \<open>(transcript_id, agent, message)\<close>, no
  row has a null \<open>message\<close> or a null \<open>agent\<close>, and these two fields are the only filtering
  criteria: a row that survived the duplicate removal is kept exactly when both are present,
  whatever its \<open>sentiment\<close>, \<open>turn_rating\<close> and \<open>article_url\<close> are. On every table that has
  its columns \<^verbatim>\<open>clean_data\<close> returns such a result.
\<close>

theorem clean_data_invariants:
  "clean_data f = handle_missing_values (remove_duplicates f) \<and>
   (clean_data f = Inr out \<longrightarrow>
      distinct (map (\<lambda>r. (transcript_id r, agent r, message r)) (frame_rows out)) \<and>
      (\<forall>r \<in> set (frame_rows out). message r \<noteq> None \<and> agent r \<noteq> None) \<and>
      (\<forall>r \<in> set (frame_rows (remove_duplicates f)).
         r \<in> set (frame_rows out) \<longleftrightarrow> (message r \<noteq> None \<and> agent r \<noteq> None))) \<and>
   clean_data (Table df) =
     Inr (Table (filter (\<lambda>r. message r \<noteq> None \<and> agent r \<noteq> None)
                   (frame_rows (remove_duplicates (Table df)))))"
proof (intro conjI impI)
  show "clean_data f = handle_missing_values (remove_duplicates f)"
    by (simp add: clean_data_def)
next
  show "clean_data (Table df) =
     Inr (Table (filter (\<lambda>r. message r \<noteq> None \<and> agent r \<noteq> None)
                   (frame_rows (remove_duplicates (Table df)))))"
    by (simp add: clean_data_def)
next
  assume returned: "clean_data f = Inr out"
  then obtain rows where f: "f = Table rows"
    by (cases f) (simp_all add: clean_data_def)
  define kept where "kept = keep_first dup_key [] rows"
  from returned f have out: "frame_rows out = filter (\<lambda>r. message r \<noteq> None \<and> agent r \<noteq> None) kept"
    by (auto simp: clean_data_def kept_def)
  from f have dedup: "frame_rows (remove_duplicates f) = kept"
    by (simp add: kept_def)
  have "distinct (map dup_key kept)"
    by (simp add: kept_def keep_first_distinct)
  then have "distinct (map dup_key (frame_rows out))"
    by (simp add: out distinct_map_filter)
  moreover have "dup_key = (\<lambda>r::'a row_scheme. (transcript_id r, agent r, message r))"
    by (rule ext) (simp add: dup_key_def)
  ultimately show "distinct (map (\<lambda>r. (transcript_id r, agent r, message r)) (frame_rows out))"
    by simp
  show "\<forall>r \<in> set (frame_rows out). message r \<noteq> None \<and> agent r \<noteq> None"
    by (simp add: out)
  show "\<forall>r \<in> set (frame_rows (remove_duplicates f)).
          r \<in> set (frame_rows out) \<longleftrightarrow> (message r \<noteq> None \<and> agent r \<noteq> None)"
    by (simp add: out dedup)
qed

theorem clean_data_invariants_witness:
  "clean_data (Table [greeting, greeting_again, no_message, no_sentiment])
     = Inr (Table [greeting, no_sentiment]) \<and>
   no_sentiment \<in> set (frame_rows (remove_duplicates
                                     (Table [greeting, greeting_again, no_message, no_sentiment]))) \<and>
   sentiment no_sentiment = None \<and> turn_rating no_sentiment = None \<and>
   no_sentiment \<in> set (frame_rows (Table [greeting, no_sentiment])) \<and>
   message no_sentiment \<noteq> None \<and> agent no_sentiment \<noteq> None"
  using clean_data_invariants
    [of "Table [greeting, greeting_again, no_message, no_sentiment]"
        "Table [greeting, no_sentiment]" "[greeting, greeting_again, no_message, no_sentiment]"]
  by (simp add: clean_data_def dup_key_def
      greeting_def greeting_again_def no_message_def no_sentiment_def turn_row_def)

text \<open>
  C10: null cells are equal to each other in the key. A row with a null \<open>message\<close> that
  follows a row with the same \<open>transcript_id\<close> and \<open>agent\<close> and a null \<open>message\<close> is a
  duplicate: \<^verbatim>\<open>remove_duplicates\<close> returns what it returns without that row, and the row that
  survives with this key is the first such row of the table.
\<close>

theorem remove_duplicates_null_message:
  assumes "a \<in> set df"
    and "transcript_id a = transcript_id b"
    and "agent a = agent b"
    and "message a = None"
    and "message b = None"
  shows "remove_duplicates (Table (df @ b # rest)) = remove_duplicates (Table (df @ rest)) \<and>
         (\<exists>k \<in> set (frame_rows (remove_duplicates (Table (df @ b # rest)))).
            find (\<lambda>x. transcript_id x = transcript_id b \<and> agent x = agent b \<and> message x = None) df
              = Some k)"
proof
  from assms have same: "dup_key a = dup_key b"
    by (simp add: dup_key_eq)
  with assms(1) have seen: "dup_key b \<in> dup_key ` set df"
    by (metis (no_types) imageI)
  then have "keep_first dup_key [] (df @ b # rest) = keep_first dup_key [] (df @ rest)"
    by (rule keep_first_later_duplicate)
  then show "remove_duplicates (Table (df @ b # rest)) = remove_duplicates (Table (df @ rest))"
    by simp
  from seen have "dup_key b \<in> dup_key ` set (keep_first dup_key [] (df @ b # rest))"
    by (simp add: keep_first_keys)
  then obtain k where k_in: "k \<in> set (keep_first dup_key [] (df @ b # rest))"
    and k_key: "dup_key k = dup_key b"
    by (metis (no_types) imageE)
  from k_in have "find (\<lambda>x. dup_key x = dup_key k) (df @ b # rest) = Some k"
    by (rule keep_first_find)
  with k_key have "find (\<lambda>x. dup_key x = dup_key b) (df @ b # rest) = Some k"
    by simp
  moreover have "find (\<lambda>x. dup_key x = dup_key b) (df @ b # rest) = find (\<lambda>x. dup_key x = dup_key b) df"
    using assms(1) same by (rule find_append_prefix)
  ultimately have "find (\<lambda>x. dup_key x = dup_key b) df = Some k"
    by simp
  then have "find (\<lambda>x. transcript_id x = transcript_id b \<and> agent x = agent b \<and> message x = None) df
               = Some k"
    using assms(5) by (simp add: dup_key_eq)
  with k_in show "\<exists>k \<in> set (frame_rows (remove_duplicates (Table (df @ b # rest)))).
            find (\<lambda>x. transcript_id x = transcript_id b \<and> agent x = agent b \<and> message x = None) df
              = Some k"
    by auto
qed

theorem remove_duplicates_null_message_witness:
  "no_message \<in> set [greeting, no_message] \<and>
   transcript_id no_message = transcript_id no_message_again \<and>
   agent no_message = agent no_message_again \<and>
   message no_message = None \<and> message no_message_again = None \<and>
   no_message \<noteq> no_message_again \<and>
   remove_duplicates (Table ([greeting, no_message] @ no_message_again # [no_sentiment]))
     = Table [greeting, no_message, no_sentiment]"
proof -
  have h1: "no_message \<in> set [greeting, no_message]" by simp
  have h2: "transcript_id no_message = transcript_id no_message_again"
    by (simp add: no_message_def no_message_again_def turn_row_def)
  have h3: "agent no_message = agent no_message_again"
    by (simp add: no_message_def no_message_again_def turn_row_def)
  have h4: "message no_message = None"
    by (simp add: no_message_def turn_row_def)
  have h5: "message no_message_again = None"
    by (simp add: no_message_again_def turn_row_def)
  have "no_message \<noteq> no_message_again"
    by (simp add: no_message_def no_message_again_def turn_row_def)
  moreover have "remove_duplicates (Table ([greeting, no_message] @ [no_sentiment]))
                   = Table [greeting, no_message, no_sentiment]"
    by (simp add: dup_key_def greeting_def no_message_def no_sentiment_def turn_row_def)
  ultimately show ?thesis
    using h1 h2 h3 h4 h5 remove_duplicates_null_message [OF h1 h2 h3 h4 h5, of "[no_sentiment]"]
    by simp
qed

section \<open>Text normalization\<close>

lemma preprocess_text_io_log:
  "snd (preprocess_text_io lib text log) = log @ [NewWordNetLemmatizer, StopwordsWords]"
  by (cases "text") (simp_all add: preprocess_text_io_def)

lemma preprocess_text_io_result:
  "fst (preprocess_text_io lib text log) = preprocess_text lib text"
  by (cases "text") (simp_all add: preprocess_text_def preprocess_text_io_def)

text \<open>
  C8: \<^verbatim>\<open>preprocess_text\<close> returns a string for every Python value (with the NLTK functions
  returning, it has no failing branch): for a value that is not a string, such as \<^verbatim>\<open>None\<close>
  or \<^verbatim>\<open>42\<close>, the empty string; and the string returned depends on the argument only, not
  on the calls made before.
\<close>

theorem preprocess_text_non_string:
  "((\<forall>s. text \<noteq> JStr s) \<longrightarrow> preprocess_text lib text = '''') \<and>
   fst (preprocess_text_io lib text log) = fst (preprocess_text_io lib text log')"
proof
  show "(\<forall>s. text \<noteq> JStr s) \<longrightarrow> preprocess_text lib text = ''''"
    by (cases "text") (simp_all add: preprocess_text_def preprocess_text_io_def)
next
  show "fst (preprocess_text_io lib text log) = fst (preprocess_text_io lib text log')"
    by (simp only: preprocess_text_io_result)
qed

theorem preprocess_text_non_string_witness:
  "(\<forall>s. JNull \<noteq> JStr s) \<and> preprocess_text small_library JNull = '''' \<and>
   (\<forall>s. JNum 42 \<noteq> JStr s) \<and> preprocess_text small_library (JNum 42) = ''''"
  using preprocess_text_non_string [of JNull small_library]
    preprocess_text_non_string [of "JNum 42" small_library]
  by simp

text \<open>The test \<^verbatim>\<open>token in string.punctuation\<close> is a substring test.\<close>

lemma prefix_take: "prefix a b \<longleftrightarrow> take (length a) b = a"
  by (metis append_eq_conv_conj prefix_def take_is_prefix)

lemma str_in_sublist: "str_in a b \<longleftrightarrow> sublist a b"
  by (induction b) (simp_all add: sublist_Cons_right prefix_take)

lemma distinct_punctuation: "distinct punctuation"
  by (simp add: punctuation_def)

lemma sublist_distinct: "sublist a b \<Longrightarrow> distinct b \<Longrightarrow> distinct a"
  by (auto simp: sublist_def)

lemma sublist_single: "c \<in> set b \<Longrightarrow> sublist [c] b"
proof -
  assume "c \<in> set b"
  then obtain ps ss where "b = ps @ [c] @ ss"
    by (auto dest: split_list)
  then show ?thesis
    unfolding sublist_def by blast
qed

text \<open>
  C3 does not hold as stated: the token \<^verbatim>\<open>^_\<close> has two characters and is not a stopword,
  and it is removed, because it occurs in \<^verbatim>\<open>string.punctuation\<close> as a run of characters.
\<close>

theorem punctuation_run_removed:
  "''^_'' \<in> set (word_tokenize small_library (lower small_library ''a ^_ b'')) \<and>
   length ''^_'' = 2 \<and>
   ''^_'' \<notin> set (english_stopwords small_library) \<and>
   ''^_'' \<notin> set (processed_tokens small_library ''a ^_ b'') \<and>
   preprocess_text small_library (JStr ''a ^_ b'') = ''b''"
  by (simp add: preprocess_text_def preprocess_text_io_def processed_tokens_def small_library_def
      ascii_lower_def ascii_lower_char_def keep_token_def punctuation_def)

text \<open>
  C3, amended: a token is removed exactly when it is a stopword or occurs in the string
  \<^verbatim>\<open>string.punctuation\<close> as a contiguous run of characters. So every token that is a single
  punctuation character is removed; and a token that is not a stopword is kept when it has
  a character that is not punctuation, or a character that occurs twice in it (such as
  \<^verbatim>\<open>...\<close> or \<^verbatim>\<open>--\<close>).
\<close>

theorem processed_tokens_filter:
  "processed_tokens lib text =
     filter (\<lambda>token. \<not> (token \<in> set (english_stopwords lib) \<or> sublist token punctuation))
       (word_tokenize lib (lower lib text)) \<and>
   (\<forall>c \<in> set punctuation. [c] \<notin> set (processed_tokens lib text)) \<and>
   (\<forall>token \<in> set (word_tokenize lib (lower lib text)).
      token \<notin> set (english_stopwords lib) \<and> (\<not> set token \<subseteq> set punctuation \<or> \<not> distinct token)
      \<longrightarrow> token \<in> set (processed_tokens lib text))"
proof (intro conjI)
  show filter_eq: "processed_tokens lib text =
     filter (\<lambda>token. \<not> (token \<in> set (english_stopwords lib) \<or> sublist token punctuation))
       (word_tokenize lib (lower lib text))"
    by (simp add: processed_tokens_def keep_token_def [abs_def] str_in_sublist)
  show "\<forall>c \<in> set punctuation. [c] \<notin> set (processed_tokens lib text)"
    by (simp add: filter_eq sublist_single)
  show "\<forall>token \<in> set (word_tokenize lib (lower lib text)).
      token \<notin> set (english_stopwords lib) \<and> (\<not> set token \<subseteq> set punctuation \<or> \<not> distinct token)
      \<longrightarrow> token \<in> set (processed_tokens lib text)"
  proof (intro ballI impI)
    fix token
    assume tok: "token \<in> set (word_tokenize lib (lower lib text))"
      and keep: "token \<notin> set (english_stopwords lib) \<and>
                 (\<not> set token \<subseteq> set punctuation \<or> \<not> distinct token)"
    have "\<not> sublist token punctuation"
    proof
      assume sub: "sublist token punctuation"
      then have "set token \<subseteq> set punctuation"
        by (rule set_mono_sublist)
      moreover from sub distinct_punctuation have "distinct token"
        by (rule sublist_distinct)
      ultimately show False using keep by blast
    qed
    with tok keep show "token \<in> set (processed_tokens lib text)"
      by (simp add: filter_eq)
  qed
qed

theorem processed_tokens_filter_witness:
  "CHR ''!'' \<in> set punctuation \<and>
   ''!'' \<in> set (word_tokenize small_library (lower small_library ''the x.y ... !'')) \<and>
   ''!'' \<notin> set (processed_tokens small_library ''the x.y ... !'') \<and>
   ''x.y'' \<in> set (word_tokenize small_library (lower small_library ''the x.y ... !'')) \<and>
   ''x.y'' \<notin> set (english_stopwords small_library) \<and> \<not> set ''x.y'' \<subseteq> set punctuation \<and>
   ''x.y'' \<in> set (processed_tokens small_library ''the x.y ... !'') \<and>
   ''...'' \<in> set (word_tokenize small_library (lower small_library ''the x.y ... !'')) \<and>
   ''...'' \<notin> set (english_stopwords small_library) \<and> \<not> distinct ''...'' \<and>
   ''...'' \<in> set (processed_tokens small_library ''the x.y ... !'')"
proof -
  note filter_facts = processed_tokens_filter [of small_library "''the x.y ... !''"]
  note dropped = filter_facts [THEN conjunct2, THEN conjunct1]
  note kept = filter_facts [THEN conjunct2, THEN conjunct2]
  have toks: "word_tokenize small_library (lower small_library ''the x.y ... !'') = [''the'', ''x.y'', ''...'', ''!'']"
    by (simp add: small_library_def ascii_lower_def ascii_lower_char_def)
  have t1: "''!'' \<in> set (word_tokenize small_library (lower small_library ''the x.y ... !''))"
    and t2: "''x.y'' \<in> set (word_tokenize small_library (lower small_library ''the x.y ... !''))"
    and t3: "''...'' \<in> set (word_tokenize small_library (lower small_library ''the x.y ... !''))"
    by (simp_all add: toks)
  have s2: "''x.y'' \<notin> set (english_stopwords small_library)"
    and s3: "''...'' \<notin> set (english_stopwords small_library)"
    by (simp_all add: small_library_def)
  have p: "CHR ''!'' \<in> set punctuation" and q: "\<not> set ''x.y'' \<subseteq> set punctuation"
    by (simp_all add: punctuation_def)
  have r: "\<not> distinct ''...''"
    by simp
  from dropped p have w1: "''!'' \<notin> set (processed_tokens small_library ''the x.y ... !'')"
    by (rule bspec)
  from kept t2 s2 q have w2: "''x.y'' \<in> set (processed_tokens small_library ''the x.y ... !'')"
    by blast
  from kept t3 s3 r have w3: "''...'' \<in> set (processed_tokens small_library ''the x.y ... !'')"
    by blast
  from p t1 w1 t2 s2 q w2 t3 s3 r w3 show ?thesis
    by (intro conjI)
qed

section \<open>Resource initialization\<close>

text \<open>
  C4 does not hold as stated: after the import of the module, one call of
  \<^verbatim>\<open>preprocess_text\<close> (here on \<^verbatim>\<open>None\<close>) builds a lemmatizer and reads the stopword list
  again.
\<close>

theorem preprocess_text_rebuilds_resources:
  "process_log small_library [JNull] \<noteq> process_log small_library [] \<and>
   process_log small_library [JNull] =
     process_log small_library [] @ [NewWordNetLemmatizer, StopwordsWords]"
  by (simp add: process_log_def module_import_def preprocess_text_io_def)

text \<open>
  C4, amended: the import of the module downloads the three NLTK packages, reads the
  stopword list and builds a lemmatizer once, before any call; after that, every call of
  \<^verbatim>\<open>preprocess_text\<close> builds a new lemmatizer and reads the stopword list again, whatever
  its argument is.
\<close>

theorem process_log_events:
  "process_log lib texts =
     [NltkDownload ''stopwords'', NltkDownload ''punkt'', NltkDownload ''wordnet'',
      StopwordsWords, NewWordNetLemmatizer] @
     concat (map (\<lambda>text. [NewWordNetLemmatizer, StopwordsWords]) texts)"
proof -
  have calls: "run_calls lib texts log =
                 log @ concat (map (\<lambda>text. [NewWordNetLemmatizer, StopwordsWords]) texts)" for log
  proof (induction texts arbitrary: log)
    case Nil
    show ?case by simp
  next
    case (Cons t texts)
    have "run_calls lib (t # texts) log =
            run_calls lib texts (log @ [NewWordNetLemmatizer, StopwordsWords])"
      by (simp add: preprocess_text_io_log)
    also have "\<dots> = (log @ [NewWordNetLemmatizer, StopwordsWords]) @
                      concat (map (\<lambda>text. [NewWordNetLemmatizer, StopwordsWords]) texts)"
      by (rule Cons.IH)
    finally show ?case by simp
  qed
  have "module_import [] =
          [NltkDownload ''stopwords'', NltkDownload ''punkt'', NltkDownload ''wordnet'',
           StopwordsWords, NewWordNetLemmatizer]"
    by (simp add: module_import_def)
  with calls [of "module_import []"] show ?thesis
    by (simp add: process_log_def)
qed

section \<open>Loading\<close>


text \<open>
  A store without any turn gives the frame without columns, and cleaning raises on it.
\<close>

lemma analyzer_load_data_no_turns:
  "load_data loads fs path = Inr j \<Longrightarrow> to_dataframe j = Inr NoColumns \<Longrightarrow>
   analyzer_load_data lib loads fs path = Inl KeyError"
  by (auto simp: analyzer_load_data_def load_data_def clean_data_def split: option.splits)






section \<open>Mode of a column\<close>

lemma count_list_dropna: "count_list (dropna col) v = count_list col (Some v)"
  by (induction col) (auto simp: dropna_def split: option.splits)

lemma set_dropna: "set (dropna col) = {v. Some v \<in> set col}"
  by (induction col) (auto simp: dropna_def split: option.splits)

lemma dropna_empty: "dropna col = [] \<longleftrightarrow> (\<forall>c \<in> set col. c = None)"
  by (induction col) (auto simp: dropna_def split: option.splits)

lemma set_mode:
  "set (mode col) =
     {v. Some v \<in> set col \<and> (\<forall>w. count_list col (Some w) \<le> count_list col (Some v))}"
proof (cases "dropna col = []")
  case True
  then have "\<forall>c \<in> set col. c = None"
    by (simp add: dropna_empty)
  then have "\<And>v. Some v \<notin> set col"
    by auto
  with True show ?thesis
    by (simp add: mode_def)
next
  case False
  define vals where "vals = dropna col"
  define m where "m = Max (set (map (count_list vals) vals))"
  have fin: "finite (set (map (count_list vals) vals))" and ne: "set (map (count_list vals) vals) \<noteq> {}"
    using False by (simp_all add: vals_def)
  have m_in: "m \<in> set (map (count_list vals) vals)"
    unfolding m_def using fin ne by (rule Max_in)
  have m_ge: "count_list vals w \<le> m" for w
  proof (cases "w \<in> set vals")
    case True
    then have "count_list vals w \<in> set (map (count_list vals) vals)"
      by simp
    with fin show ?thesis
      unfolding m_def by (rule Max_ge)
  next
    case False
    then show ?thesis by (simp add: count_list_0_iff)
  qed
  have "set (mode col) = {v \<in> set vals. count_list vals v = m}"
    using False by (simp add: mode_def vals_def m_def Let_def)
  also have "\<dots> = {v \<in> set vals. \<forall>w. count_list vals w \<le> count_list vals v}"
  proof (intro Collect_cong conj_cong refl iffI allI)
    fix v w
    assume "count_list vals v = m"
    then show "count_list vals w \<le> count_list vals v"
      using m_ge [of w] by simp
  next
    fix v
    assume top: "\<forall>w. count_list vals w \<le> count_list vals v"
    from m_in obtain u where "count_list vals u = m"
      by auto
    with top have "m \<le> count_list vals v"
      by auto
    with m_ge [of v] show "count_list vals v = m"
      by simp
  qed
  finally show ?thesis
    by (simp add: vals_def set_dropna count_list_dropna)
qed

lemma sorted_mode: "sorted (mode col)"
  by (simp add: mode_def Let_def)

text \<open>
  The first entry of the mode is a value that occurs most often in the column, and the
  smallest of the values that do.
\<close>

lemma iloc0_mode:
  assumes "iloc0 (mode col) = Inr v"
  shows "Some v \<in> set col \<and>
         (\<forall>w. count_list col (Some w) \<le> count_list col (Some v)) \<and>
         (\<forall>w. Some w \<in> set col \<and> count_list col (Some w) = count_list col (Some v) \<longrightarrow> v \<le> w)"
proof -
  from assms obtain rest where shape: "mode col = v # rest"
    by (cases "mode col") auto
  then have "v \<in> set (mode col)"
    by simp
  then have v_top: "Some v \<in> set col \<and> (\<forall>w. count_list col (Some w) \<le> count_list col (Some v))"
    by (simp add: set_mode)
  have "v \<le> w" if "Some w \<in> set col" and "count_list col (Some w) = count_list col (Some v)" for w
  proof -
    from that v_top have "w \<in> set (mode col)"
      by (simp add: set_mode)
    with shape have "w = v \<or> w \<in> set rest"
      by simp
    moreover from sorted_mode [of col] shape have "\<forall>y \<in> set rest. v \<le> y"
      by simp
    ultimately show ?thesis
      by auto
  qed
  with v_top show ?thesis
    by blast
qed

lemma iloc0_mode_error:
  "iloc0 (mode col) = Inl IndexError \<longleftrightarrow> (\<forall>c \<in> set col. c = None)"
proof -
  have "mode col = [] \<longleftrightarrow> set (mode col) = {}"
    by simp
  also have "\<dots> \<longleftrightarrow> dropna col = []"
  proof (cases "dropna col = []")
    case True
    then show ?thesis by (simp add: mode_def)
  next
    case False
    then obtain u where "u \<in> set (dropna col)"
      by (cases "dropna col") auto
    define best where "best = Max (count_list col ` Some ` set (dropna col))"
    have "best \<in> count_list col ` Some ` set (dropna col)"
      unfolding best_def using False by (intro Max_in) auto
    then obtain v where v_in: "v \<in> set (dropna col)" and v_best: "count_list col (Some v) = best"
      by auto
    have "count_list col (Some w) \<le> count_list col (Some v)" for w
    proof (cases "w \<in> set (dropna col)")
      case True
      then have "count_list col (Some w) \<le> best"
        unfolding best_def by (intro Max_ge) auto
      with v_best show ?thesis by simp
    next
      case False
      then have "count_list col (Some w) = 0"
        by (simp add: set_dropna count_list_0_iff)
      then show ?thesis by simp
    qed
    with v_in have "v \<in> set (mode col)"
      by (simp add: set_mode set_dropna)
    with False show ?thesis by auto
  qed
  finally have "mode col = [] \<longleftrightarrow> (\<forall>c \<in> set col. c = None)"
    by (simp add: dropna_empty)
  then show ?thesis
    by (cases "mode col") simp_all
qed

section \<open>Analysis of a transcript\<close>

lemma sentiments_loop_returns:
  assumes "\<forall>a \<in> set agents.
             agent_sentiments df a = [] \<or> (\<exists>s. Some s \<in> set (agent_sentiments df a))"
  shows "\<exists>overall. sentiments_loop df agents acc = Inr overall"
  using assms
proof (induction agents arbitrary: acc)
  case Nil
  then show ?case by simp
next
  case (Cons a agents)
  from Cons.prems have rest:
    "\<forall>a \<in> set agents. agent_sentiments df a = [] \<or> (\<exists>s. Some s \<in> set (agent_sentiments df a))"
    by simp
  show ?case
  proof (cases "agent_sentiments df a = []")
    case True
    with Cons.IH [OF rest] show ?thesis by simp
  next
    case False
    with Cons.prems obtain s where "Some s \<in> set (agent_sentiments df a)"
      by auto
    then have "iloc0 (mode (agent_sentiments df a)) \<noteq> Inl IndexError"
      by (auto simp: iloc0_mode_error)
    then obtain v where "iloc0 (mode (agent_sentiments df a)) = Inr v"
      by (cases "mode (agent_sentiments df a)") auto
    with False Cons.IH [OF rest] show ?thesis by simp
  qed
qed

lemma all_text_complete: "\<forall>c \<in> set col. c \<noteq> None \<Longrightarrow> all_text col = Inr (dropna col)"
  by (induction col) (auto simp: dropna_def)

lemma get_count_value_counts: "get_count (value_counts col) a = count_list col (Some a)"
  by (simp add: get_count_def value_counts_def count_list_0_iff)

lemma count_list_map: "count_list (map f xs) y = length (filter (\<lambda>x. f x = y) xs)"
  by (induction xs) auto

text \<open>
  The entries of the dict that the loop builds: \<^verbatim>\<open>"N/A"\<close> for an agent without rows, and
  otherwise the first entry of the mode of the agent's sentiments.
\<close>

lemma sentiments_loop_entries:
  assumes "sentiments_loop df agents acc = Inr overall"
  shows "(\<forall>a. a \<notin> set agents \<longrightarrow> overall a = acc a) \<and>
         (\<forall>a \<in> set agents.
            if agent_sentiments df a = [] then overall a = Some ''N/A''
            else \<exists>v. iloc0 (mode (agent_sentiments df a)) = Inr v \<and> overall a = Some v)"
  using assms
proof (induction agents arbitrary: acc)
  case Nil
  then show ?case by simp
next
  case (Cons x agents)
  define entry where
    "entry = (if agent_sentiments df x \<noteq> [] then iloc0 (mode (agent_sentiments df x)) else Inr ''N/A'')"
  from Cons.prems obtain v where entry: "entry = Inr v"
    and rest: "sentiments_loop df agents (acc(x \<mapsto> v)) = Inr overall"
    by (cases entry) (simp_all add: entry_def Let_def)
  note IH = Cons.IH [OF rest]
  have at_x: "if agent_sentiments df x = [] then v = ''N/A''
              else iloc0 (mode (agent_sentiments df x)) = Inr v"
    using entry by (simp add: entry_def split: if_splits)
  show ?case
  proof (intro conjI allI ballI impI)
    fix a
    assume "a \<notin> set (x # agents)"
    with IH show "overall a = acc a"
      by simp
  next
    fix a
    assume a_in: "a \<in> set (x # agents)"
    show "if agent_sentiments df a = [] then overall a = Some ''N/A''
          else \<exists>v. iloc0 (mode (agent_sentiments df a)) = Inr v \<and> overall a = Some v"
    proof (cases "a \<in> set agents")
      case True
      with IH show ?thesis by blast
    next
      case False
      with a_in have "a = x" by simp
      moreover from False IH have "overall a = (acc(x \<mapsto> v)) a"
        by blast
      ultimately show ?thesis
        using at_x by (simp split: if_splits)
    qed
  qed
qed

text \<open>
  When the transcript has rows, every message is present and every agent of the transcript
  has a sentiment that is not null, the steps before the call of the summarizer succeed.
\<close>

lemma transcript_steps:
  assumes rows: "\<exists>r \<in> set df. transcript_id r = tid"
    and complete: "\<forall>r \<in> set df. transcript_id r = tid \<longrightarrow> message r \<noteq> None"
    and rated: "\<forall>r \<in> set df. transcript_id r = tid \<longrightarrow>
                  (\<exists>q \<in> set df. transcript_id q = tid \<and> agent q = agent r \<and> sentiment q \<noteq> None)"
    and tdf: "tdf = filter (\<lambda>r. transcript_id r = tid) df"
  shows "\<exists>first rest overall.
           tdf = first # rest \<and>
           agent_overall_sentiments tdf = Inr overall \<and>
           join_messages (map message tdf) = Inr (join '' '' (dropna (map message tdf)))"
proof -
  from rows have "tdf \<noteq> []"
    by (auto simp: tdf filter_empty_conv)
  then obtain first rest where shape: "tdf = first # rest"
    by (cases tdf) auto
  have "\<forall>a \<in> set (keep_first (\<lambda>a. a) [] (map agent tdf)).
          agent_sentiments tdf a = [] \<or> (\<exists>s. Some s \<in> set (agent_sentiments tdf a))"
  proof
    fix a
    assume "a \<in> set (keep_first (\<lambda>a. a) [] (map agent tdf))"
    moreover have "set (keep_first (\<lambda>a. a) [] (map agent tdf)) = set (map agent tdf)"
      using keep_first_keys [of "\<lambda>a. a" "[]" "map agent tdf"] by simp
    ultimately have "a \<in> set (map agent tdf)"
      by simp
    then obtain r where "r \<in> set df" and "transcript_id r = tid" and "agent r = a"
      by (auto simp: tdf)
    with rated obtain q s where "q \<in> set tdf" and "agent q = a" and "sentiment q = Some s"
      by (fastforce simp: tdf)
    then show "agent_sentiments tdf a = [] \<or> (\<exists>s. Some s \<in> set (agent_sentiments tdf a))"
      by (cases a) (force simp: agent_sentiments_def)+
  qed
  then obtain overall where overall: "agent_overall_sentiments tdf = Inr overall"
    unfolding agent_overall_sentiments_def using sentiments_loop_returns by blast
  from complete have "\<forall>c \<in> set (map message tdf). c \<noteq> None"
    by (auto simp: tdf)
  then have "join_messages (map message tdf) = Inr (join '' '' (dropna (map message tdf)))"
    by (simp add: join_messages_def all_text_complete)
  with shape overall show ?thesis
    by blast
qed

text \<open>If, in addition, the summarizer returns, \<^verbatim>\<open>analyze_transcript\<close> returns this analysis.\<close>

lemma analyze_transcript_returns:
  assumes rows: "\<exists>r \<in> set df. transcript_id r = tid"
    and complete: "\<forall>r \<in> set df. transcript_id r = tid \<longrightarrow> message r \<noteq> None"
    and rated: "\<forall>r \<in> set df. transcript_id r = tid \<longrightarrow>
                  (\<exists>q \<in> set df. transcript_id q = tid \<and> agent q = agent r \<and> sentiment q \<noteq> None)"
    and summarized:
      "summarizer (join '' '' (dropna (map message (filter (\<lambda>r. transcript_id r = tid) df))))
         150 30 False = Inr summary_list"
  shows "\<exists>overall. analyze_transcript summarizer (Table df) tid =
           Inr (Analysis
             \<lparr> result_transcript_id = tid,
               possible_article_link = article_url (hd (filter (\<lambda>r. transcript_id r = tid) df)),
               message_counts =
                 [(''agent_1'', length (filter (\<lambda>r. transcript_id r = tid \<and> agent r = Some ''agent_1'') df)),
                  (''agent_2'', length (filter (\<lambda>r. transcript_id r = tid \<and> agent r = Some ''agent_2'') df))],
               overall_sentiments =
                 [(''agent_1'', get_sentiment overall ''agent_1''),
                  (''agent_2'', get_sentiment overall ''agent_2'')],
               conversation_summary =
                 (case summary_list of [] \<Rightarrow> ''Could not generate summary.'' | s # _ \<Rightarrow> summary_text s),
               accuracy_report = the_accuracy_report \<rparr>)"
proof -
  define tdf where "tdf = filter (\<lambda>r. transcript_id r = tid) df"
  from transcript_steps [OF rows complete rated tdf_def]
  obtain first rest overall where shape: "tdf = first # rest"
    and overall: "agent_overall_sentiments tdf = Inr overall"
    and text_ok: "join_messages (map message tdf) = Inr (join '' '' (dropna (map message tdf)))"
    by blast
  have counts: "get_count (value_counts (map agent (filter (\<lambda>r. transcript_id r = tid) df))) a =
                length (filter (\<lambda>r. transcript_id r = tid \<and> agent r = Some a) df)" for a
    by (simp add: get_count_value_counts count_list_map conj_commute)
  have "analyze_transcript summarizer (Table df) tid =
          Inr (Analysis
             \<lparr> result_transcript_id = tid,
               possible_article_link = article_url (hd tdf),
               message_counts =
                 [(''agent_1'', get_count (value_counts (map agent tdf)) ''agent_1''),
                  (''agent_2'', get_count (value_counts (map agent tdf)) ''agent_2'')],
               overall_sentiments =
                 [(''agent_1'', get_sentiment overall ''agent_1''),
                  (''agent_2'', get_sentiment overall ''agent_2'')],
               conversation_summary =
                 (case summary_list of [] \<Rightarrow> ''Could not generate summary.'' | s # _ \<Rightarrow> summary_text s),
               accuracy_report = the_accuracy_report \<rparr>)"
    using overall text_ok summarized
    unfolding analyze_transcript.simps tdf_def [symmetric] Let_def
    by (simp add: shape)
  then show ?thesis
    unfolding tdf_def counts by blast
qed

text \<open>If the summarizer raises, so does \<^verbatim>\<open>analyze_transcript\<close>.\<close>

lemma analyze_transcript_raises:
  assumes rows: "\<exists>r \<in> set df. transcript_id r = tid"
    and complete: "\<forall>r \<in> set df. transcript_id r = tid \<longrightarrow> message r \<noteq> None"
    and rated: "\<forall>r \<in> set df. transcript_id r = tid \<longrightarrow>
                  (\<exists>q \<in> set df. transcript_id q = tid \<and> agent q = agent r \<and> sentiment q \<noteq> None)"
    and raised:
      "summarizer (join '' '' (dropna (map message (filter (\<lambda>r. transcript_id r = tid) df))))
         150 30 False = Inl e"
  shows "analyze_transcript summarizer (Table df) tid = Inl e"
proof -
  define tdf where "tdf = filter (\<lambda>r. transcript_id r = tid) df"
  from transcript_steps [OF rows complete rated tdf_def]
  obtain first rest overall where shape: "tdf = first # rest"
    and overall: "agent_overall_sentiments tdf = Inr overall"
    and text_ok: "join_messages (map message tdf) = Inr (join '' '' (dropna (map message tdf)))"
    by blast
  show ?thesis
    using overall text_ok raised
    unfolding analyze_transcript.simps tdf_def [symmetric] Let_def
    by (simp add: shape)
qed

text \<open>
  Where \<^verbatim>\<open>analyze_transcript\<close> returns, the entry of \<open>agent_1\<close> or \<open>agent_2\<close> in
  \<open>overall_sentiments\<close> is, for an agent with rows in the transcript, a sentiment that
  occurs most often among the agent's rows, and the smallest of those that do.
\<close>

lemma overall_sentiment_is_mode:
  assumes returned: "analyze_transcript summarizer (Table df) tid = Inr (Analysis result)"
    and two: "a = ''agent_1'' \<or> a = ''agent_2''"
    and present: "\<exists>r \<in> set df. transcript_id r = tid \<and> agent r = Some a"
    and col: "col = agent_sentiments (filter (\<lambda>r. transcript_id r = tid) df) (Some a)"
  shows "\<exists>v. map_of (overall_sentiments result) a = Some v \<and> Some v \<in> set col \<and>
           (\<forall>w. count_list col (Some w) \<le> count_list col (Some v)) \<and>
           (\<forall>w. Some w \<in> set col \<and> count_list col (Some w) = count_list col (Some v) \<longrightarrow> v \<le> w)"
proof -
  define tdf where "tdf = filter (\<lambda>r. transcript_id r = tid) df"
  from present obtain r where "r \<in> set tdf" and r_agent: "agent r = Some a"
    by (auto simp: tdf_def)
  then have col_rows: "agent_sentiments tdf (Some a) \<noteq> []"
    by (auto simp: agent_sentiments_def filter_empty_conv)
  from \<open>r \<in> set tdf\<close> obtain first rest where shape: "tdf = first # rest"
    by (cases tdf) auto
  from returned obtain overall where overall: "agent_overall_sentiments tdf = Inr overall"
    and entries: "overall_sentiments result =
                    [(''agent_1'', get_sentiment overall ''agent_1''),
                     (''agent_2'', get_sentiment overall ''agent_2'')]"
    unfolding analyze_transcript.simps tdf_def [symmetric] Let_def
    by (auto simp: shape split: sum.splits)
  have "Some a \<in> set (map agent tdf)"
    using \<open>r \<in> set tdf\<close> r_agent by force
  moreover have "set (keep_first (\<lambda>a. a) [] (map agent tdf)) = set (map agent tdf)"
    using keep_first_keys [of "\<lambda>a. a" "[]" "map agent tdf"] by simp
  ultimately have "Some a \<in> set (keep_first (\<lambda>a. a) [] (map agent tdf))"
    by simp
  with sentiments_loop_entries [OF overall [unfolded agent_overall_sentiments_def]] col_rows
  obtain v where first_mode: "iloc0 (mode (agent_sentiments tdf (Some a))) = Inr v"
    and "overall (Some a) = Some v"
    by (auto split: if_splits)
  then have "get_sentiment overall a = v"
    by (simp add: get_sentiment_def)
  with two entries have "map_of (overall_sentiments result) a = Some v"
    by auto
  with iloc0_mode [OF first_mode] show ?thesis
    unfolding col tdf_def by blast
qed

text \<open>
  C1 fails on the code: for an agent whose sentiments are all null the column is not
  empty, \<^verbatim>\<open>mode()\<close> of it is, and \<^verbatim>\<open>.iloc[0]\<close> raises \<open>IndexError\<close> instead of giving
  \<^verbatim>\<open>"N/A"\<close>. Here the transcript is one turn of \<open>agent_2\<close> without a sentiment.
\<close>

theorem null_sentiments_raise:
  "sentiment no_sentiment = None \<and>
   analyze_transcript summarizer (Table [no_sentiment]) ''t1'' = Inl IndexError"
  by (simp add: no_sentiment_def turn_row_def agent_overall_sentiments_def
      agent_sentiments_def mode_def dropna_def)

text \<open>
  C2 does not hold as stated: an exception of the summarizer is not caught, it leaves
  \<^verbatim>\<open>analyze_transcript\<close>.
\<close>

theorem summarizer_error_propagates:
  "analyze_transcript raising_summarizer (Table [greeting]) ''t1'' = Inl (SummarizerError ''timeout'')"
  by (simp add: raising_summarizer_def greeting_def turn_row_def
      agent_overall_sentiments_def agent_sentiments_def mode_def dropna_def join_messages_def)

text \<open>
  C2, amended: for a transcript that has rows, all with a message, and in which every
  agent has a sentiment that is not null: when the summarizer returns no result (an empty
  list), \<^verbatim>\<open>analyze_transcript\<close> returns an analysis whose summary is the fallback string;
  when the summarizer raises, \<^verbatim>\<open>analyze_transcript\<close> raises the same error.
\<close>

theorem empty_summary_fallback:
  assumes "\<exists>r \<in> set df. transcript_id r = tid"
    and "\<forall>r \<in> set df. transcript_id r = tid \<longrightarrow> message r \<noteq> None"
    and "\<forall>r \<in> set df. transcript_id r = tid \<longrightarrow>
           (\<exists>q \<in> set df. transcript_id q = tid \<and> agent q = agent r \<and> sentiment q \<noteq> None)"
    and "full_transcript_text =
           join '' '' (dropna (map message (filter (\<lambda>r. transcript_id r = tid) df)))"
  shows "(summarizer full_transcript_text 150 30 False = Inr [] \<longrightarrow>
            (\<exists>result. analyze_transcript summarizer (Table df) tid = Inr (Analysis result) \<and>
               conversation_summary result = ''Could not generate summary.'')) \<and>
         (summarizer full_transcript_text 150 30 False = Inl e \<longrightarrow>
            analyze_transcript summarizer (Table df) tid = Inl e)"
proof (intro conjI impI)
  assume "summarizer full_transcript_text 150 30 False = Inr []"
  then have silent:
    "summarizer (join '' '' (dropna (map message (filter (\<lambda>r. transcript_id r = tid) df))))
       150 30 False = Inr []"
    by (simp only: assms(4))
  from analyze_transcript_returns
    [where df = df and tid = tid and summarizer = summarizer and summary_list = "[]",
      OF assms(1) assms(2) assms(3) silent]
  obtain overall where "analyze_transcript summarizer (Table df) tid =
           Inr (Analysis
             \<lparr> result_transcript_id = tid,
               possible_article_link = article_url (hd (filter (\<lambda>r. transcript_id r = tid) df)),
               message_counts =
                 [(''agent_1'', length (filter (\<lambda>r. transcript_id r = tid \<and> agent r = Some ''agent_1'') df)),
                  (''agent_2'', length (filter (\<lambda>r. transcript_id r = tid \<and> agent r = Some ''agent_2'') df))],
               overall_sentiments =
                 [(''agent_1'', get_sentiment overall ''agent_1''),
                  (''agent_2'', get_sentiment overall ''agent_2'')],
               conversation_summary =
                 (case [] :: summary list of [] \<Rightarrow> ''Could not generate summary.'' | s # _ \<Rightarrow> summary_text s),
               accuracy_report = the_accuracy_report \<rparr>)"
    by blast
  then show "\<exists>result. analyze_transcript summarizer (Table df) tid = Inr (Analysis result) \<and>
               conversation_summary result = ''Could not generate summary.''"
    by simp
next
  assume "summarizer full_transcript_text 150 30 False = Inl e"
  then have raised:
    "summarizer (join '' '' (dropna (map message (filter (\<lambda>r. transcript_id r = tid) df))))
       150 30 False = Inl e"
    by (simp only: assms(4))
  from analyze_transcript_raises
    [where df = df and tid = tid and summarizer = summarizer, OF assms(1) assms(2) assms(3) raised]
  show "analyze_transcript summarizer (Table df) tid = Inl e" .
qed

theorem empty_summary_fallback_witness:
  "(\<exists>r \<in> set [greeting]. transcript_id r = ''t1'') \<and>
   message greeting \<noteq> None \<and> sentiment greeting \<noteq> None \<and>
   silent_summarizer ''hello'' 150 30 False = Inr [] \<and>
   (\<exists>result. analyze_transcript silent_summarizer (Table [greeting]) ''t1'' = Inr (Analysis result) \<and>
      conversation_summary result = ''Could not generate summary.'') \<and>
   raising_summarizer ''hello'' 150 30 False = Inl (SummarizerError ''timeout'') \<and>
   analyze_transcript raising_summarizer (Table [greeting]) ''t1'' = Inl (SummarizerError ''timeout'')"
proof -
  have h1: "\<exists>r \<in> set [greeting]. transcript_id r = ''t1''"
    by (simp add: greeting_def turn_row_def)
  have h2: "\<forall>r \<in> set [greeting]. transcript_id r = ''t1'' \<longrightarrow> message r \<noteq> None"
    by (simp add: greeting_def turn_row_def)
  have h3: "\<forall>r \<in> set [greeting]. transcript_id r = ''t1'' \<longrightarrow>
              (\<exists>q \<in> set [greeting]. transcript_id q = ''t1'' \<and> agent q = agent r \<and> sentiment q \<noteq> None)"
    by (simp add: greeting_def turn_row_def)
  have h4: "''hello'' = join '' '' (dropna (map message (filter (\<lambda>r. transcript_id r = ''t1'') [greeting])))"
    by (simp add: greeting_def turn_row_def dropna_def)
  have m: "message greeting \<noteq> None" and s: "sentiment greeting \<noteq> None"
    by (simp_all add: greeting_def turn_row_def)
  have silent: "silent_summarizer ''hello'' 150 30 False = Inr []"
    by (simp add: silent_summarizer_def)
  have raising: "raising_summarizer ''hello'' 150 30 False = Inl (SummarizerError ''timeout'')"
    by (simp add: raising_summarizer_def)
  note silent_case = empty_summary_fallback
    [where df = "[greeting]" and tid = "''t1''" and summarizer = silent_summarizer,
      OF h1 h2 h3 h4, THEN conjunct1, rule_format, OF silent]
  note raising_case = empty_summary_fallback
    [where df = "[greeting]" and tid = "''t1''" and summarizer = raising_summarizer,
      OF h1 h2 h3 h4, THEN conjunct2, rule_format, OF raising]
  from h1 m s silent silent_case raising raising_case show ?thesis
    by (intro conjI)
qed

text \<open>
  C9 does not hold as stated: \<open>agent_3\<close> occurs in the rows of the transcript and has no
  entry in \<open>message_counts\<close>, which has the keys \<open>agent_1\<close> and \<open>agent_2\<close> and no other.
\<close>

theorem third_agent_has_no_count:
  "transcript_id third_agent = ''t1'' \<and> agent third_agent = Some ''agent_3'' \<and>
   analyze_transcript fixed_summarizer (Table [greeting, third_agent]) ''t1'' =
     Inr (Analysis
       \<lparr> result_transcript_id = ''t1'',
         possible_article_link = Some ''http://a'',
         message_counts = [(''agent_1'', 1), (''agent_2'', 0)],
         overall_sentiments = [(''agent_1'', ''Happy''), (''agent_2'', ''N/A'')],
         conversation_summary = ''A chat.'',
         accuracy_report = the_accuracy_report \<rparr>)"
  by (simp add: fixed_summarizer_def greeting_def third_agent_def
      turn_row_def agent_overall_sentiments_def agent_sentiments_def mode_def dropna_def
      join_messages_def get_count_def value_counts_def get_sentiment_def)

text \<open>
  C9, amended: \<open>message_counts\<close> has exactly two entries, for \<open>agent_1\<close> and \<open>agent_2\<close>,
  each with the number of rows of the transcript that have this agent (0 when there is
  none); rows of another agent are not counted. This is what \<^verbatim>\<open>analyze_transcript\<close> returns
  when the transcript has rows, all with a message, every agent of it has a sentiment that
  is not null, and the summarizer returns.
\<close>

theorem message_counts_two_agents:
  assumes "\<exists>r \<in> set df. transcript_id r = tid"
    and "\<forall>r \<in> set df. transcript_id r = tid \<longrightarrow> message r \<noteq> None"
    and "\<forall>r \<in> set df. transcript_id r = tid \<longrightarrow>
           (\<exists>q \<in> set df. transcript_id q = tid \<and> agent q = agent r \<and> sentiment q \<noteq> None)"
    and "summarizer (join '' '' (dropna (map message (filter (\<lambda>r. transcript_id r = tid) df))))
           150 30 False = Inr summary_list"
  shows "\<exists>result. analyze_transcript summarizer (Table df) tid = Inr (Analysis result) \<and>
           message_counts result =
             [(''agent_1'', length (filter (\<lambda>r. transcript_id r = tid \<and> agent r = Some ''agent_1'') df)),
              (''agent_2'', length (filter (\<lambda>r. transcript_id r = tid \<and> agent r = Some ''agent_2'') df))]"
proof -
  from analyze_transcript_returns
    [where df = df and tid = tid and summarizer = summarizer and summary_list = summary_list,
      OF assms]
  obtain overall where "analyze_transcript summarizer (Table df) tid =
           Inr (Analysis
             \<lparr> result_transcript_id = tid,
               possible_article_link = article_url (hd (filter (\<lambda>r. transcript_id r = tid) df)),
               message_counts =
                 [(''agent_1'', length (filter (\<lambda>r. transcript_id r = tid \<and> agent r = Some ''agent_1'') df)),
                  (''agent_2'', length (filter (\<lambda>r. transcript_id r = tid \<and> agent r = Some ''agent_2'') df))],
               overall_sentiments =
                 [(''agent_1'', get_sentiment overall ''agent_1''),
                  (''agent_2'', get_sentiment overall ''agent_2'')],
               conversation_summary =
                 (case summary_list of [] \<Rightarrow> ''Could not generate summary.'' | s # _ \<Rightarrow> summary_text s),
               accuracy_report = the_accuracy_report \<rparr>)"
    by blast
  then show ?thesis
    by simp
qed

theorem message_counts_two_agents_witness:
  "(\<exists>r \<in> set [greeting, third_agent]. transcript_id r = ''t1'') \<and>
   message greeting \<noteq> None \<and> message third_agent \<noteq> None \<and>
   fixed_summarizer
     (join '' '' (dropna (map message (filter (\<lambda>r. transcript_id r = ''t1'') [greeting, third_agent]))))
     150 30 False = Inr [\<lparr> summary_text = ''A chat.'' \<rparr>] \<and>
   (\<exists>result. analyze_transcript fixed_summarizer (Table [greeting, third_agent]) ''t1'' = Inr (Analysis result) \<and>
      message_counts result = [(''agent_1'', 1), (''agent_2'', 0)])"
proof -
  have h1: "\<exists>r \<in> set [greeting, third_agent]. transcript_id r = ''t1''"
    by (simp add: greeting_def turn_row_def)
  have h2: "\<forall>r \<in> set [greeting, third_agent]. transcript_id r = ''t1'' \<longrightarrow> message r \<noteq> None"
    by (simp add: greeting_def third_agent_def turn_row_def)
  have h3: "\<forall>r \<in> set [greeting, third_agent]. transcript_id r = ''t1'' \<longrightarrow>
              (\<exists>q \<in> set [greeting, third_agent].
                 transcript_id q = ''t1'' \<and> agent q = agent r \<and> sentiment q \<noteq> None)"
    by (simp add: greeting_def third_agent_def turn_row_def)
  have h4: "fixed_summarizer
              (join '' '' (dropna (map message (filter (\<lambda>r. transcript_id r = ''t1'') [greeting, third_agent]))))
              150 30 False = Inr [\<lparr> summary_text = ''A chat.'' \<rparr>]"
    by (simp add: fixed_summarizer_def)
  have n1: "length (filter (\<lambda>r. transcript_id r = ''t1'' \<and> agent r = Some ''agent_1'') [greeting, third_agent]) = 1"
    and n2: "length (filter (\<lambda>r. transcript_id r = ''t1'' \<and> agent r = Some ''agent_2'') [greeting, third_agent]) = 0"
    by (simp_all add: greeting_def third_agent_def turn_row_def)
  from message_counts_two_agents
    [where df = "[greeting, third_agent]" and tid = "''t1''" and summarizer = fixed_summarizer,
      OF h1 h2 h3 h4]
  have "\<exists>result. analyze_transcript fixed_summarizer (Table [greeting, third_agent]) ''t1'' = Inr (Analysis result) \<and>
      message_counts result = [(''agent_1'', 1), (''agent_2'', 0)]"
    unfolding n1 n2 .
  moreover have "message greeting \<noteq> None" and "message third_agent \<noteq> None"
    by (simp_all add: greeting_def third_agent_def turn_row_def)
  ultimately show ?thesis
    using h1 h4 by (intro conjI)
qed

end
